theory Spec2Isabelle
  imports Main "HOL-Library.Word"
begin

unbundle bit_operations_syntax

section \<open>The CUDA core's memory-request lifecycle (gpu/gpgpu-sim/cuda\_core.cc)\<close>

text \<open>
  A shallow embedding of the member functions of \<open>CudaCore\<close> that move instruction
  fetches and load/store requests between the core and the memory system. The object's
  fields are a record that every function takes and returns; what a function does to its
  collaborators (the ports, the functional GPU model, the TLB) is the list of events it
  returns; what a collaborator answers (a port accepting or rejecting a send, the
  write-back unit being busy) is an argument. A failed \<open>assert\<close>, a \<open>panic\<close> and
  an operation that C++ leaves undefined end the simulation: they are the left summand of
  the result.
\<close>

subsection \<open>Data model\<close>

type_synonym Addr = "64 word"

text \<open>Packets are handled through pointers; a pointer is its address.\<close>

type_synonym PacketPtr = nat

datatype fatal =
    AssertionFailed string
  | Panic string
  | UndefinedBehaviour string

datatype MemCmd = ReadReq | WriteReq | FlushReq | ReadResp | WriteResp | FlushResp

text \<open>
  The fields of a \<open>mem_fetch\<close> that \<open>icacheFetch\<close> reads, and its identity.
  \<open>size()\<close> is an \<open>unsigned\<close>.
\<close>

record mem_fetch =
  mf_ptr :: nat
  mf_size :: "32 word"
  mf_pc :: Addr

text \<open>
  A \<open>Request\<close> as \<open>setVirt\<close> and the constructors fill it. The size is handed
  over as a C \<open>int\<close>: 32 bits, of which \<open>sint\<close> is the value; a packet's
  \<open>getSize()\<close> gives the same bits as an \<open>unsigned\<close>, which \<open>unat\<close> reads.
\<close>

record Request =
  req_vaddr :: Addr
  req_size :: "32 word"
  req_pc :: Addr
  req_instFetch :: bool

record Packet =
  pkt_req :: Request
  pkt_cmd :: MemCmd

datatype memory_space =
    undefined_space | reg_space | local_space | shared_space
  | param_space_unclassified | param_space_kernel | param_space_local
  | const_space | tex_space | surf_space | global_space | generic_space
  | instruction_space

text \<open>
  What \<open>executeMemOp\<close> and \<open>recvLSQDataResp\<close> read of a \<open>warp_inst_t\<close>.
  \<open>data_size\<close> and \<open>vectorLength\<close> are 32-bit fields of the instruction.
\<close>

record warp_inst =
  inst_space :: memory_space
  inst_valid :: bool
  inst_empty :: bool
  inst_active :: "nat \<Rightarrow> bool"
  inst_addr :: "nat \<Rightarrow> Addr"
  inst_pc :: Addr
  inst_data_size :: "32 word"
  inst_vectorLength :: "32 word"
  inst_is_load :: bool
  inst_is_store :: bool

datatype event =
    BeginTranslateTiming Request
  | InstSendTimingReq PacketPtr bool
  | AcceptFetchResponse mem_fetch
  | LaneSendTimingReq nat Packet bool
  | LaneDelete nat
  | LdstUnitWbInst bool
  | WriteRegister nat
  | DeleteResponse
  | LaneSendRetry nat
  | ControlSendTimingReq MemCmd bool
  | ShaderFinishKernel

text \<open>
  The fields of \<open>CudaCore\<close>. \<open>blockSizeBits\<close> stands for
  \<open>cudaGPU->getRubySystem()->getBlockSizeBits()\<close>, a configuration value of the memory
  system that the core reads and never writes.
\<close>

record CudaCore =
  warpSize :: nat
  blockSizeBits :: nat
  busyInstCacheLineAddrs :: "Addr \<rightharpoonup> mem_fetch"
  stallOnICacheRetry :: bool
  retryInstPkts :: "PacketPtr list"
  writebackBlocked :: int
  signalKernelFinish :: bool
  numInstCacheRequests :: nat
  numInstCacheRetry :: nat
  numKernelsCompleted :: nat

type_synonym 'a result = "fatal + 'a"

text \<open>The state the constructor leaves, for a warp of \<open>w\<close> lanes and \<open>b\<close> block-size bits.\<close>

definition initCore :: "nat \<Rightarrow> nat \<Rightarrow> CudaCore" where
  "initCore w b =
     \<lparr> warpSize = w, blockSizeBits = b, busyInstCacheLineAddrs = Map.empty,
       stallOnICacheRetry = False, retryInstPkts = [], writebackBlocked = - 1,
       signalKernelFinish = False, numInstCacheRequests = 0, numInstCacheRetry = 0,
       numKernelsCompleted = 0 \<rparr>"

subsection \<open>Address-line translation\<close>

text \<open>
  \<open>a & (((uint64_t)-1) << maskBits)\<close>. The shift is defined in C++ for
  \<open>maskBits < 64\<close> only; the block-size bits of a memory system are far below that, and
  the theorems on \<open>addrToLine\<close> are stated for \<open>maskBits < 64\<close>.
\<close>

definition addrToLine :: "nat \<Rightarrow> Addr \<Rightarrow> Addr" where
  "addrToLine maskBits a = a AND push_bit maskBits (- 1)"

definition instCacheResourceAvailable :: "Addr \<Rightarrow> CudaCore \<Rightarrow> bool" where
  "instCacheResourceAvailable addr s =
     (busyInstCacheLineAddrs s (addrToLine (blockSizeBits s) addr) = None)"

subsection \<open>Outstanding instruction fetches\<close>

text \<open>
  \<open>icacheFetch\<close> builds the request for the line of \<open>addr\<close>, files \<open>mf\<close> under
  the line of the request's address and hands the request to the TLB, whose answer comes
  back later through \<open>finishTranslation\<close>.
\<close>

definition icacheFetch :: "Addr \<Rightarrow> mem_fetch \<Rightarrow> CudaCore \<Rightarrow> (CudaCore \<times> event list) result" where
  "icacheFetch addr mf s =
     (if \<not> instCacheResourceAvailable addr s
      then Inl (AssertionFailed ''instCacheResourceAvailable(addr)'')
      else
        let line_addr = addrToLine (blockSizeBits s) addr;
            req = \<lparr> req_vaddr = line_addr, req_size = mf_size mf, req_pc = mf_pc mf,
                    req_instFetch = True \<rparr>
        in Inr (s\<lparr> busyInstCacheLineAddrs :=
                      (busyInstCacheLineAddrs s)
                        (addrToLine (blockSizeBits s) (req_vaddr req) \<mapsto> mf) \<rparr>,
                [BeginTranslateTiming req]))"

definition recvInstResp :: "Packet \<Rightarrow> CudaCore \<Rightarrow> (CudaCore \<times> event list) result" where
  "recvInstResp pkt s =
     (if \<not> req_instFetch (pkt_req pkt)
      then Inl (AssertionFailed ''pkt->req->isInstFetch()'')
      else
        (case busyInstCacheLineAddrs s
                (addrToLine (blockSizeBits s) (req_vaddr (pkt_req pkt))) of
           None \<Rightarrow> Inl (AssertionFailed ''iter != busyInstCacheLineAddrs.end()'')
         | Some mf \<Rightarrow>
             Inr (s\<lparr> busyInstCacheLineAddrs :=
                        (busyInstCacheLineAddrs s)
                          (addrToLine (blockSizeBits s) (req_vaddr (pkt_req pkt)) := None) \<rparr>,
                  [AcceptFetchResponse mf, DeleteResponse])))"

subsection \<open>Fetch dispatch and the retry list\<close>

text \<open>
  \<open>accepted\<close> is what \<open>instPort.sendTimingReq(pkt)\<close> returns. On a rejected send the
  code compares \<open>pkt\<close> with \<open>retryInstPkts.front()\<close>; \<open>front()\<close> of an empty
  \<open>std::list\<close> is undefined. The counter is incremented after the conditional, on
  both paths.
\<close>

definition sendInstAccess :: "bool \<Rightarrow> PacketPtr \<Rightarrow> CudaCore \<Rightarrow> (CudaCore \<times> event list) result" where
  "sendInstAccess accepted pkt s =
     (if stallOnICacheRetry s then Inl (AssertionFailed ''!stallOnICacheRetry'')
      else if \<not> accepted then
        (case retryInstPkts s of
           [] \<Rightarrow> Inl (UndefinedBehaviour ''retryInstPkts.front() on an empty list'')
         | front # _ \<Rightarrow>
             Inr (s\<lparr> stallOnICacheRetry := True,
                     retryInstPkts :=
                       (if pkt \<noteq> front then retryInstPkts s @ [pkt] else retryInstPkts s),
                     numInstCacheRequests := numInstCacheRequests s + 1 \<rparr>,
                  [InstSendTimingReq pkt False]))
      else Inr (s\<lparr> numInstCacheRequests := numInstCacheRequests s + 1 \<rparr>,
                [InstSendTimingReq pkt True]))"

text \<open>
  \<open>r1\<close> answers the send of the list's head, \<open>r2\<close> the send of the next head when
  there is one. \<open>std::list::remove\<close> erases every element equal to its argument.
\<close>

definition handleRetry :: "bool \<Rightarrow> bool \<Rightarrow> CudaCore \<Rightarrow> (CudaCore \<times> event list) result" where
  "handleRetry r1 r2 s =
     (if \<not> stallOnICacheRetry s then Inl (AssertionFailed ''stallOnICacheRetry'')
      else
        (case retryInstPkts s of
           [] \<Rightarrow> Inl (AssertionFailed ''retryInstPkts.size()'')
         | retry_pkt # _ \<Rightarrow>
             if r1 then
               (case removeAll retry_pkt (retryInstPkts s) of
                  [] \<Rightarrow>
                    Inr (s\<lparr> numInstCacheRetry := numInstCacheRetry s + 1,
                            retryInstPkts := [], stallOnICacheRetry := False \<rparr>,
                         [InstSendTimingReq retry_pkt True])
                | next_pkt # rest \<Rightarrow>
                    Inr (s\<lparr> numInstCacheRetry := numInstCacheRetry s + 1,
                            retryInstPkts := next_pkt # rest, stallOnICacheRetry := True \<rparr>,
                         [InstSendTimingReq retry_pkt True, InstSendTimingReq next_pkt r2]))
             else Inl (Panic ''Access should never fail on a retry!'')))"

subsection \<open>Lane-parallel memory operations\<close>

text \<open>
  The size of a lane's request is computed in \<open>int size\<close>: \<open>size = inst.data_size\<close>,
  then \<open>size *= inst.vectorLength\<close>. The product keeps its low 32 bits, and the
  assertions compare it as a signed value.
\<close>

definition lanePacket :: "warp_inst \<Rightarrow> nat \<Rightarrow> Packet" where
  "lanePacket inst lane =
     \<lparr> pkt_req = \<lparr> req_vaddr = inst_addr inst lane,
                   req_size = inst_data_size inst * inst_vectorLength inst,
                   req_pc = inst_pc inst, req_instFetch = False \<rparr>,
       pkt_cmd = (if inst_is_load inst then ReadReq else WriteReq) \<rparr>"

text \<open>
  The loop \<open>for (lane = 0; lane < warpSize; lane++)\<close>, from \<open>lane\<close> on.
  \<open>accept lane\<close> is what \<open>lsqPorts[lane]->sendTimingReq(pkt)\<close> returns;
  \<open>completed\<close> is the local flag; \<open>tr\<close> collects the events so far.
\<close>

function laneLoop ::
  "(nat \<Rightarrow> bool) \<Rightarrow> warp_inst \<Rightarrow> nat \<Rightarrow> nat \<Rightarrow> bool \<Rightarrow> event list \<Rightarrow> (bool \<times> event list) result" where
  "laneLoop accept inst w lane completed tr =
     (if lane < w then
        (if inst_active inst lane then
           (if \<not> (1 \<le> sint (inst_data_size inst) \<and> sint (inst_data_size inst) \<le> 8)
            then Inl (AssertionFailed ''size >= 1 && size <= 8'')
            else if \<not> sint (inst_data_size inst * inst_vectorLength inst) \<le> 16
            then Inl (AssertionFailed ''size <= 16'')
            else if \<not> inst_is_load inst \<and> \<not> inst_is_store inst
            then Inl (Panic ''Unsupported instruction type'')
            else if \<not> accept lane then
              (if completed
               then Inl (Panic ''Should never fail after first accepted lane'')
               else Inr (True, tr @ [LaneSendTimingReq lane (lanePacket inst lane) False,
                                     LaneDelete lane]))
            else laneLoop accept inst w (Suc lane) True
                   (tr @ [LaneSendTimingReq lane (lanePacket inst lane) True]))
         else laneLoop accept inst w (Suc lane) completed tr)
      else Inr (False, tr))"
  by pat_completeness auto
termination
  by (relation "measure (\<lambda>(accept, inst, w, lane, completed, tr). w - lane)") auto

declare laneLoop.simps [simp del]

definition executeMemOp :: "(nat \<Rightarrow> bool) \<Rightarrow> warp_inst \<Rightarrow> CudaCore \<Rightarrow> (bool \<times> event list) result" where
  "executeMemOp accept inst s =
     (if \<not> (inst_space inst = global_space \<or> inst_space inst = const_space)
      then Inl (AssertionFailed ''global_space || const_space'')
      else if \<not> inst_valid inst then Inl (AssertionFailed ''inst.valid()'')
      else laneLoop accept inst (warpSize s) 0 False [])"

subsection \<open>Load responses and the write-back gate\<close>

text \<open>
  The attributes of a command that the core asks for, as gem5's command table gives them
  for the commands listed here.
\<close>

definition isRead :: "MemCmd \<Rightarrow> bool" where
  "isRead c = (c = ReadReq \<or> c = ReadResp)"

definition isFlush :: "MemCmd \<Rightarrow> bool" where
  "isFlush c = (c = FlushReq \<or> c = FlushResp)"

text \<open>
  \<open>wb_ok\<close> is what \<open>shaderImpl->ldst_unit_wb_inst(inst)\<close> returns, \<open>inst\<close> the
  instruction kept in the packet's sender state. The result's first component is the
  value returned to the port: whether the response was consumed.
\<close>

definition recvLSQDataResp ::
  "bool \<Rightarrow> Packet \<Rightarrow> warp_inst \<Rightarrow> nat \<Rightarrow> CudaCore \<Rightarrow> (bool \<times> CudaCore \<times> event list) result" where
  "recvLSQDataResp wb_ok pkt inst lane_id s =
     (if \<not> isRead (pkt_cmd pkt) then Inl (AssertionFailed ''pkt->isRead()'')
      else if \<not> (\<not> inst_empty inst \<and> inst_valid inst)
      then Inl (AssertionFailed ''!inst.empty() && inst.valid()'')
      else if \<not> wb_ok then
        (if \<not> writebackBlocked s < 0 then Inl (AssertionFailed ''writebackBlocked < 0'')
         else Inr (False, s\<lparr> writebackBlocked := int lane_id \<rparr>, [LdstUnitWbInst False]))
      else if \<not> unat (req_size (pkt_req pkt)) \<le> 16
      then Inl (AssertionFailed ''pkt->getSize() <= sizeof(data)'')
      else Inr (True, s, [LdstUnitWbInst True, WriteRegister lane_id, DeleteResponse]))"

text \<open>\<open>lsqPorts\<close> holds \<open>warpSize\<close> ports; indexing the vector beyond them is undefined.\<close>

definition writebackClear :: "CudaCore \<Rightarrow> (CudaCore \<times> event list) result" where
  "writebackClear s =
     (if writebackBlocked s \<ge> 0 then
        (if nat (writebackBlocked s) < warpSize s
         then Inr (s\<lparr> writebackBlocked := - 1 \<rparr>, [LaneSendRetry (nat (writebackBlocked s))])
         else Inl (UndefinedBehaviour ''lsqPorts[writebackBlocked] out of range''))
      else Inr (s\<lparr> writebackBlocked := - 1 \<rparr>, []))"

subsection \<open>Flush and kernel completion\<close>

definition recvLSQControlResp :: "Packet \<Rightarrow> CudaCore \<Rightarrow> (CudaCore \<times> event list) result" where
  "recvLSQControlResp pkt s =
     (if isFlush (pkt_cmd pkt) then
        (if signalKernelFinish s
         then Inr (s\<lparr> signalKernelFinish := False \<rparr>, [ShaderFinishKernel, DeleteResponse])
         else Inr (s, [DeleteResponse]))
      else Inl (Panic ''Received unhandled packet type in control port''))"

text \<open>\<open>accepted\<close> is what \<open>lsqControlPort.sendTimingReq(pkt)\<close> returns.\<close>

definition flush :: "bool \<Rightarrow> CudaCore \<Rightarrow> (CudaCore \<times> event list) result" where
  "flush accepted s =
     (if \<not> accepted then Inl (Panic ''Flush requests should never fail'')
      else Inr (s, [ControlSendTimingReq FlushReq True]))"

definition finishKernel :: "bool \<Rightarrow> CudaCore \<Rightarrow> (CudaCore \<times> event list) result" where
  "finishKernel accepted s =
     flush accepted
       (s\<lparr> numKernelsCompleted := numKernelsCompleted s + 1, signalKernelFinish := True \<rparr>)"

subsection \<open>The ports' callbacks\<close>

datatype Port = InstPort | LSQPort nat | LSQControlPort

text \<open>
  \<open>recvRetry\<close> of each port class: the instruction port calls \<open>handleRetry\<close>, the
  other two panic.
\<close>

fun recvRetry :: "Port \<Rightarrow> bool \<Rightarrow> bool \<Rightarrow> CudaCore \<Rightarrow> (CudaCore \<times> event list) result" where
  "recvRetry InstPort r1 r2 s = handleRetry r1 r2 s"
| "recvRetry (LSQPort idx) r1 r2 s = Inl (Panic ''Not sure how to respond to a recvRetry...'')"
| "recvRetry LSQControlPort r1 r2 s =
     Inl (Panic ''CudaCore::LSQControlPort::recvRetry() not implemented!'')"

subsection \<open>Sequences of calls\<close>

text \<open>
  The entry points as the simulator calls them one after another, each with the answers
  of the collaborators it asks. A fatal outcome ends the run.
\<close>

datatype call =
    IcacheFetch Addr mem_fetch
  | RecvInstResp Packet
  | SendInstAccess bool PacketPtr
  | HandleRetry bool bool
  | ExecuteMemOp "nat \<Rightarrow> bool" warp_inst
  | RecvLSQDataResp bool Packet warp_inst nat
  | WritebackClear
  | RecvLSQControlResp Packet
  | FinishKernel bool

fun step :: "call \<Rightarrow> CudaCore \<Rightarrow> (CudaCore \<times> event list) result" where
  "step (IcacheFetch addr mf) s = icacheFetch addr mf s"
| "step (RecvInstResp pkt) s = recvInstResp pkt s"
| "step (SendInstAccess accepted pkt) s = sendInstAccess accepted pkt s"
| "step (HandleRetry r1 r2) s = handleRetry r1 r2 s"
| "step (ExecuteMemOp accept inst) s =
     (case executeMemOp accept inst s of
        Inl e \<Rightarrow> Inl e
      | Inr (stall, ev) \<Rightarrow> Inr (s, ev))"
| "step (RecvLSQDataResp wb_ok pkt inst lane_id) s =
     (case recvLSQDataResp wb_ok pkt inst lane_id s of
        Inl e \<Rightarrow> Inl e
      | Inr (consumed, s', ev) \<Rightarrow> Inr (s', ev))"
| "step WritebackClear s = writebackClear s"
| "step (RecvLSQControlResp pkt) s = recvLSQControlResp pkt s"
| "step (FinishKernel accepted) s = finishKernel accepted s"

fun run :: "call list \<Rightarrow> CudaCore \<Rightarrow> (CudaCore \<times> event list) result" where
  "run [] s = Inr (s, [])"
| "run (c # cs) s =
     (case step c s of
        Inl e \<Rightarrow> Inl e
      | Inr (s', ev) \<Rightarrow>
          (case run cs s' of
             Inl e \<Rightarrow> Inl e
           | Inr (s'', ev') \<Rightarrow> Inr (s'', ev @ ev')))"

subsection \<open>Counting fetches and flushes in a sequence of calls\<close>

text \<open>
  How many \<open>icacheFetch\<close> calls of a sequence are for line \<open>L\<close>, and how many
  instruction responses, for a memory system of \<open>b\<close> block-size bits.
\<close>

fun isFetchTo :: "nat \<Rightarrow> Addr \<Rightarrow> call \<Rightarrow> bool" where
  "isFetchTo b L (IcacheFetch addr mf) = (addrToLine b addr = L)"
| "isFetchTo b L c = False"

fun isResponseTo :: "nat \<Rightarrow> Addr \<Rightarrow> call \<Rightarrow> bool" where
  "isResponseTo b L (RecvInstResp pkt) = (addrToLine b (req_vaddr (pkt_req pkt)) = L)"
| "isResponseTo b L c = False"

definition fetchesTo :: "nat \<Rightarrow> Addr \<Rightarrow> call list \<Rightarrow> nat" where
  "fetchesTo b L cs = length (filter (isFetchTo b L) cs)"

definition responsesTo :: "nat \<Rightarrow> Addr \<Rightarrow> call list \<Rightarrow> nat" where
  "responsesTo b L cs = length (filter (isResponseTo b L) cs)"

fun isFlushResponse :: "call \<Rightarrow> bool" where
  "isFlushResponse (RecvLSQControlResp pkt) = isFlush (pkt_cmd pkt)"
| "isFlushResponse c = False"

subsection \<open>The inputs of the scenarios\<close>

text \<open>
  A four-byte load from global memory by lanes 0, 1 and 3 of a warp, and the packets of
  an instruction response and of a flush response.
\<close>

definition scenarioInst :: warp_inst where
  "scenarioInst =
     \<lparr> inst_space = global_space, inst_valid = True, inst_empty = False,
       inst_active = (\<lambda>l. l = 0 \<or> l = 1 \<or> l = 3),
       inst_addr = (\<lambda>l. 0x2000 + 4 * of_nat l), inst_pc = 0x400,
       inst_data_size = 4, inst_vectorLength = 1,
       inst_is_load = True, inst_is_store = False \<rparr>"

text \<open>
  The same load with a vector length whose product with the data size, 4 times
  \<open>0x40000001\<close>, does not fit the 32 bits of \<open>int size\<close>: what is left is 4.
\<close>

definition wideInst :: warp_inst where
  "wideInst = scenarioInst\<lparr> inst_vectorLength := 0x40000001 \<rparr>"

definition instResponse :: "Addr \<Rightarrow> Packet" where
  "instResponse a =
     \<lparr> pkt_req = \<lparr> req_vaddr = a, req_size = 16, req_pc = 0x400, req_instFetch = True \<rparr>,
       pkt_cmd = ReadResp \<rparr>"

definition loadResponse :: Packet where
  "loadResponse =
     \<lparr> pkt_req = \<lparr> req_vaddr = 0x2008, req_size = 4, req_pc = 0x400, req_instFetch = False \<rparr>,
       pkt_cmd = ReadResp \<rparr>"

definition flushResponse :: Packet where
  "flushResponse =
     \<lparr> pkt_req = \<lparr> req_vaddr = 0, req_size = 0, req_pc = 0, req_instFetch = False \<rparr>,
       pkt_cmd = FlushResp \<rparr>"

definition someFetch :: mem_fetch where
  "someFetch = \<lparr> mf_ptr = 1, mf_size = 16, mf_pc = 0x400 \<rparr>"

subsection \<open>Instructions that pass the checks of the dispatcher\<close>

text \<open>
  The assertions of \<open>executeMemOp\<close> on the instruction, and the panic on an
  instruction that is neither a load nor a store, all in one: an instruction that passes
  them goes through the lane loop with the ports' answers alone deciding the outcome.
\<close>

definition passesChecks :: "warp_inst \<Rightarrow> bool" where
  "passesChecks inst \<longleftrightarrow>
     (inst_space inst = global_space \<or> inst_space inst = const_space) \<and> inst_valid inst \<and>
     1 \<le> sint (inst_data_size inst) \<and> sint (inst_data_size inst) \<le> 8 \<and>
     sint (inst_data_size inst * inst_vectorLength inst) \<le> 16 \<and>
     (inst_is_load inst \<or> inst_is_store inst)"

text \<open>The core stalled on the instruction port with the packets \<open>q\<close> waiting.\<close>

definition stalledWith :: "PacketPtr list \<Rightarrow> CudaCore" where
  "stalledWith q = (initCore 4 6)\<lparr> stallOnICacheRetry := True, retryInstPkts := q \<rparr>"

subsection \<open>Rejected fetches in a build that reads past the empty list\<close>

text \<open>
  C++ leaves \<open>retryInstPkts.front()\<close> of the empty list undefined, and
  \<open>sendInstAccess\<close> above ends there. A build in which the read does not trap finds
  some pointer \<open>g\<close> in the list's sentinel node and goes on with it. This is
  \<open>sendInstAccess\<close> once more, for such a build: the same statements in the same order,
  with \<open>g\<close> for the head of the empty list. Nothing is assumed about \<open>g\<close>; it may
  even be the packet itself.
\<close>

definition sendInstAccessReading ::
  "PacketPtr \<Rightarrow> bool \<Rightarrow> PacketPtr \<Rightarrow> CudaCore \<Rightarrow> (CudaCore \<times> event list) result" where
  "sendInstAccessReading g accepted pkt s =
     (if stallOnICacheRetry s then Inl (AssertionFailed ''!stallOnICacheRetry'')
      else if \<not> accepted then
        (let front = (case retryInstPkts s of [] \<Rightarrow> g | f # _ \<Rightarrow> f)
         in Inr (s\<lparr> stallOnICacheRetry := True,
                    retryInstPkts :=
                      (if pkt \<noteq> front then retryInstPkts s @ [pkt] else retryInstPkts s),
                    numInstCacheRequests := numInstCacheRequests s + 1 \<rparr>,
                 [InstSendTimingReq pkt False]))
      else Inr (s\<lparr> numInstCacheRequests := numInstCacheRequests s + 1 \<rparr>,
                [InstSendTimingReq pkt True]))"



subsection \<open>What the instruction port sees\<close>






section \<open>Properties\<close>

subsection \<open>Address-line translation\<close>

lemma bit_addrToLine: "bit (addrToLine k a) n \<longleftrightarrow> k \<le> n \<and> bit a n"
  by (auto simp: addrToLine_def bit_and_iff bit_not_iff bit_mask_iff dest: bit_imp_le_length)

lemma addrToLine_idem: "addrToLine k (addrToLine k a) = addrToLine k a"
  by (simp add: addrToLine_def)

lemma addrToLine_same_line:
  "addrToLine k a = addrToLine k b \<longleftrightarrow> drop_bit k a = drop_bit k b"
proof
  assume h: "addrToLine k a = addrToLine k b"
  show "drop_bit k a = drop_bit k b"
  proof (rule bit_eqI)
    fix n
    have "bit (addrToLine k a) (k + n) = bit (addrToLine k b) (k + n)" using h by simp
    then show "bit (drop_bit k a) n = bit (drop_bit k b) n"
      by (simp add: bit_addrToLine bit_drop_bit_eq add.commute)
  qed
next
  assume h: "drop_bit k a = drop_bit k b"
  show "addrToLine k a = addrToLine k b"
  proof (rule bit_eqI)
    fix n
    show "bit (addrToLine k a) n = bit (addrToLine k b) n"
    proof (cases "k \<le> n")
      case True
      have "bit (drop_bit k a) (n - k) = bit (drop_bit k b) (n - k)" using h by simp
      with True show ?thesis by (simp add: bit_addrToLine bit_drop_bit_eq)
    next
      case False
      then show ?thesis by (simp add: bit_addrToLine)
    qed
  qed
qed

text \<open>
  C4, as the claim states it, fails: with a block size of 64 bytes (6 bits) address
  \<open>0x1040\<close> is the first byte of line \<open>0x1040\<close>, not a byte of line \<open>0x1000\<close>.
\<close>

theorem addrToLine_0x1040_counterexample:
  "addrToLine 6 0x1040 \<noteq> 0x1000 \<and> addrToLine 6 0x1040 \<noteq> addrToLine 6 0x1005"
  by (simp add: addrToLine_def mask_eq_exp_minus_1)

text \<open>
  C4, amended: for block-size bits \<open>k < 64\<close>, \<open>addrToLine\<close> clears exactly the bits
  below bit \<open>k\<close> and keeps every other bit, so two addresses have the same line exactly
  when they agree above the block offset; with 64-byte blocks \<open>0x1005\<close> and
  \<open>0x103F\<close> are on line \<open>0x1000\<close>, and \<open>0x1040\<close> is on line \<open>0x1040\<close>.
\<close>

theorem addrToLine_clears_offset_bits:
  "k < 64 \<longrightarrow>
     (\<forall>n. bit (addrToLine k a) n \<longleftrightarrow> k \<le> n \<and> bit a n) \<and>
     (addrToLine k a = addrToLine k b \<longleftrightarrow> drop_bit k a = drop_bit k b) \<and>
     addrToLine 6 0x1005 = 0x1000 \<and> addrToLine 6 0x103F = 0x1000 \<and>
     addrToLine 6 0x1040 = 0x1040"
proof (intro impI conjI allI)
  fix n
  show "bit (addrToLine k a) n \<longleftrightarrow> k \<le> n \<and> bit a n" by (rule bit_addrToLine)
next
  show "addrToLine k a = addrToLine k b \<longleftrightarrow> drop_bit k a = drop_bit k b"
    by (rule addrToLine_same_line)
next
  show "addrToLine 6 0x1005 = 0x1000" by (simp add: addrToLine_def mask_eq_exp_minus_1)
next
  show "addrToLine 6 0x103F = 0x1000" by (simp add: addrToLine_def mask_eq_exp_minus_1)
next
  show "addrToLine 6 0x1040 = 0x1040" by (simp add: addrToLine_def mask_eq_exp_minus_1)
qed

theorem addrToLine_clears_offset_bits_witness:
  "(6::nat) < 64 \<and>
   bit (addrToLine 6 0x1005) 12 \<and> \<not> bit (addrToLine 6 0x1005) 0 \<and>
   addrToLine 6 0x1005 = addrToLine 6 0x103F \<and>
   drop_bit 6 (0x1005 :: Addr) = drop_bit 6 (0x103F :: Addr)"
proof -
  have h: "(6::nat) < 64" by simp
  have b12: "bit (0x1005 :: Addr) 12" and b0: "bit (0x1005 :: Addr) 0" by simp_all
  from addrToLine_clears_offset_bits [of 6 "0x1005" "0x103F"] h
  have bits: "\<forall>n. bit (addrToLine 6 0x1005) n \<longleftrightarrow> 6 \<le> n \<and> bit (0x1005 :: Addr) n"
    and same: "addrToLine 6 0x1005 = addrToLine 6 0x103F \<longleftrightarrow>
               drop_bit 6 (0x1005 :: Addr) = drop_bit 6 (0x103F :: Addr)"
    and l1: "addrToLine 6 0x1005 = 0x1000" and l2: "addrToLine 6 0x103F = 0x1000"
    by blast+
  from bits b12 have c1: "bit (addrToLine 6 0x1005) 12" by simp
  from bits have c2: "\<not> bit (addrToLine 6 0x1005) 0" by simp
  from l1 l2 have c3: "addrToLine 6 0x1005 = addrToLine 6 0x103F" by simp
  from same c3 have c4: "drop_bit 6 (0x1005 :: Addr) = drop_bit 6 (0x103F :: Addr)" by simp
  from h c1 c2 c3 c4 show ?thesis by blast
qed

subsection \<open>Lane-parallel dispatch\<close>

lemma laneLoop_stall:
  "laneLoop accept inst w lane c tr = Inr (True, tr') \<Longrightarrow>
     \<not> c \<and> (\<exists>l. lane \<le> l \<and> l < w \<and> inst_active inst l \<and> \<not> accept l \<and>
            (\<forall>k. lane \<le> k \<and> k < l \<longrightarrow> \<not> inst_active inst k) \<and>
            tr' = tr @ [LaneSendTimingReq l (lanePacket inst l) False, LaneDelete l])"
proof (induction accept inst w lane c tr rule: laneLoop.induct)
  case (1 accept inst w lane completed tr)
  note prem = "1.prems" [unfolded laneLoop.simps [of accept inst w lane completed tr]]
  show ?case
  proof (cases "inst_active inst lane")
    case False
    with prem have lt: "lane < w" and rec: "laneLoop accept inst w (Suc lane) completed tr = Inr (True, tr')"
      by (auto split: if_splits)
    from "1.IH"(2) [OF lt False rec] obtain l where
      l: "\<not> completed" "Suc lane \<le> l" "l < w" "inst_active inst l" "\<not> accept l"
         "\<forall>k. Suc lane \<le> k \<and> k < l \<longrightarrow> \<not> inst_active inst k"
         "tr' = tr @ [LaneSendTimingReq l (lanePacket inst l) False, LaneDelete l]"
      by blast
    have "\<forall>k. lane \<le> k \<and> k < l \<longrightarrow> \<not> inst_active inst k"
    proof (intro allI impI)
      fix k assume "lane \<le> k \<and> k < l"
      then show "\<not> inst_active inst k" using False l(6) by (cases "k = lane") auto
    qed
    with l show ?thesis by (intro conjI exI [of _ l]) auto
  next
    case True
    show ?thesis
    proof (cases "accept lane")
      case False
      with prem True have "\<not> completed" "lane < w"
        "tr' = tr @ [LaneSendTimingReq lane (lanePacket inst lane) False, LaneDelete lane]"
        by (auto split: if_splits)
      with True False show ?thesis by (intro conjI exI [of _ lane]) auto
    next
      case acc: True
      with prem True have lt: "lane < w"
        and a1: "\<not> \<not> (1 \<le> sint (inst_data_size inst) \<and> sint (inst_data_size inst) \<le> 8)"
        and a2: "\<not> \<not> sint (inst_data_size inst * inst_vectorLength inst) \<le> 16"
        and a3: "\<not> (\<not> inst_is_load inst \<and> \<not> inst_is_store inst)"
        and rec: "laneLoop accept inst w (Suc lane) True
                   (tr @ [LaneSendTimingReq lane (lanePacket inst lane) True]) = Inr (True, tr')"
        by (auto split: if_splits)
      from "1.IH"(1) [OF lt True a1 a2 a3 _ rec] acc show ?thesis by simp
    qed
  qed
qed

lemma laneLoop_done:
  "laneLoop accept inst w lane c tr = Inr (False, tr') \<Longrightarrow>
     tr' = tr @ map (\<lambda>l. LaneSendTimingReq l (lanePacket inst l) True)
                  (filter (inst_active inst) [lane..<w]) \<and>
     (\<forall>l. lane \<le> l \<and> l < w \<and> inst_active inst l \<longrightarrow> accept l)"
proof (induction accept inst w lane c tr rule: laneLoop.induct)
  case (1 accept inst w lane completed tr)
  note prem = "1.prems" [unfolded laneLoop.simps [of accept inst w lane completed tr]]
  show ?case
  proof (cases "lane < w")
    case False
    with prem show ?thesis by auto
  next
    case lt: True
    then have upt: "[lane..<w] = lane # [Suc lane..<w]" by (rule upt_conv_Cons)
    show ?thesis
    proof (cases "inst_active inst lane")
      case False
      with prem lt have rec: "laneLoop accept inst w (Suc lane) completed tr = Inr (False, tr')"
        by simp
      from "1.IH"(2) [OF lt False rec] have
        ih: "tr' = tr @ map (\<lambda>l. LaneSendTimingReq l (lanePacket inst l) True)
                          (filter (inst_active inst) [Suc lane..<w])"
            "\<forall>l. Suc lane \<le> l \<and> l < w \<and> inst_active inst l \<longrightarrow> accept l"
        by simp_all
      have "\<forall>l. lane \<le> l \<and> l < w \<and> inst_active inst l \<longrightarrow> accept l"
      proof (intro allI impI)
        fix l assume "lane \<le> l \<and> l < w \<and> inst_active inst l"
        then show "accept l" using False ih(2) by (cases "l = lane") auto
      qed
      with ih(1) False upt show ?thesis by simp
    next
      case True
      with prem lt have acc: "accept lane"
        and a1: "\<not> \<not> (1 \<le> sint (inst_data_size inst) \<and> sint (inst_data_size inst) \<le> 8)"
        and a2: "\<not> \<not> sint (inst_data_size inst * inst_vectorLength inst) \<le> 16"
        and a3: "\<not> (\<not> inst_is_load inst \<and> \<not> inst_is_store inst)"
        and rec: "laneLoop accept inst w (Suc lane) True
                   (tr @ [LaneSendTimingReq lane (lanePacket inst lane) True]) = Inr (False, tr')"
        by (auto split: if_splits)
      have nacc: "\<not> \<not> accept lane" using acc by simp
      from "1.IH"(1) [OF lt True a1 a2 a3 nacc rec] have
        ih: "tr' = (tr @ [LaneSendTimingReq lane (lanePacket inst lane) True]) @
                   map (\<lambda>l. LaneSendTimingReq l (lanePacket inst l) True)
                          (filter (inst_active inst) [Suc lane..<w])"
            "\<forall>l. Suc lane \<le> l \<and> l < w \<and> inst_active inst l \<longrightarrow> accept l"
        by simp_all
      have "\<forall>l. lane \<le> l \<and> l < w \<and> inst_active inst l \<longrightarrow> accept l"
      proof (intro allI impI)
        fix l assume "lane \<le> l \<and> l < w \<and> inst_active inst l"
        then show "accept l" using acc ih(2) by (cases "l = lane") auto
      qed
      with ih(1) True upt show ?thesis by simp
    qed
  qed
qed

lemma laneLoop_first_rejects:
  assumes sz: "1 \<le> sint (inst_data_size inst)" "sint (inst_data_size inst) \<le> 8"
              "sint (inst_data_size inst * inst_vectorLength inst) \<le> 16"
      and ls: "inst_is_load inst \<or> inst_is_store inst"
  shows "lane \<le> l \<Longrightarrow> l < w \<Longrightarrow> inst_active inst l \<Longrightarrow> \<not> accept l \<Longrightarrow>
         (\<forall>k. lane \<le> k \<and> k < l \<longrightarrow> \<not> inst_active inst k) \<Longrightarrow>
         laneLoop accept inst w lane False tr =
           Inr (True, tr @ [LaneSendTimingReq l (lanePacket inst l) False, LaneDelete l])"
proof (induction "l - lane" arbitrary: lane)
  case 0
  then have "lane = l" by simp
  with 0 sz ls show ?case by (simp add: laneLoop.simps [of accept inst w l False tr])
next
  case (Suc n)
  then have lt: "lane < l" and na: "\<not> inst_active inst lane" by auto
  from Suc lt have "laneLoop accept inst w (Suc lane) False tr =
           Inr (True, tr @ [LaneSendTimingReq l (lanePacket inst l) False, LaneDelete l])"
    by (intro Suc.hyps(1)) auto
  with lt na Suc.prems show ?case
    by (simp add: laneLoop.simps [of accept inst w lane False tr])
qed

lemma laneLoop_rejects_after_completed:
  assumes sz: "1 \<le> sint (inst_data_size inst)" "sint (inst_data_size inst) \<le> 8"
              "sint (inst_data_size inst * inst_vectorLength inst) \<le> 16"
      and ls: "inst_is_load inst \<or> inst_is_store inst"
  shows "lane \<le> l \<Longrightarrow> l < w \<Longrightarrow> inst_active inst l \<Longrightarrow> \<not> accept l \<Longrightarrow>
         (\<forall>j. lane \<le> j \<and> j < l \<and> inst_active inst j \<longrightarrow> accept j) \<Longrightarrow>
         c \<or> (\<exists>k. lane \<le> k \<and> k < l \<and> inst_active inst k) \<Longrightarrow>
         laneLoop accept inst w lane c tr =
           Inl (Panic ''Should never fail after first accepted lane'')"
proof (induction "l - lane" arbitrary: lane c tr)
  case 0
  then have "lane = l" "c" by auto
  with 0 sz ls show ?case by (subst laneLoop.simps) simp
next
  case (Suc n)
  then have lt: "lane < l" by auto
  show ?case
  proof (cases "inst_active inst lane")
    case True
    with Suc.prems lt have acc: "accept lane" by auto
    from Suc lt have "laneLoop accept inst w (Suc lane) True
            (tr @ [LaneSendTimingReq lane (lanePacket inst lane) True]) =
           Inl (Panic ''Should never fail after first accepted lane'')"
      by (intro Suc.hyps(1)) auto
    with lt True acc Suc.prems sz ls show ?thesis
      by (simp add: laneLoop.simps [of accept inst w lane c tr])
  next
    case False
    have "c \<or> (\<exists>k. Suc lane \<le> k \<and> k < l \<and> inst_active inst k)"
    proof (cases c)
      case True then show ?thesis by simp
    next
      case nc: False
      with Suc.prems obtain k where k: "lane \<le> k" "k < l" "inst_active inst k" by auto
      with False have "k \<noteq> lane" by auto
      with k show ?thesis by (intro disjI2 exI [of _ k]) auto
    qed
    with Suc lt have "laneLoop accept inst w (Suc lane) c tr =
           Inl (Panic ''Should never fail after first accepted lane'')"
      by (intro Suc.hyps(1)) auto
    with lt False Suc.prems show ?thesis
      by (simp add: laneLoop.simps [of accept inst w lane c tr])
  qed
qed

text \<open>
  C1: \<open>executeMemOp\<close> offers the active lanes to their ports in increasing lane
  order. When the first active lane is rejected, the call returns a stall at once: the only
  events are that lane's rejected send and the deletion of its request, so no lane was
  consumed and no later lane was tried. When the first rejected active lane comes after an
  accepted one, the call is fatal. A stall is only ever returned in the first way, and a
  return without stall means that exactly the active lanes were sent, in lane order, and
  every one of them was accepted. The first two parts are for an instruction that passes
  the checks, which are the code's own, on the size as the code computes it.
\<close>

theorem executeMemOp_fail_early:
  "(passesChecks inst \<and> l < warpSize s \<and> inst_active inst l \<and> \<not> accept l \<and>
      (\<forall>k<l. \<not> inst_active inst k) \<longrightarrow>
      executeMemOp accept inst s =
        Inr (True, [LaneSendTimingReq l (lanePacket inst l) False, LaneDelete l])) \<and>
   (passesChecks inst \<and> l < warpSize s \<and> inst_active inst l \<and> \<not> accept l \<and>
      (\<forall>j<l. inst_active inst j \<longrightarrow> accept j) \<and> k < l \<and> inst_active inst k \<longrightarrow>
      executeMemOp accept inst s =
        Inl (Panic ''Should never fail after first accepted lane'')) \<and>
   (executeMemOp accept inst s = Inr (True, tr) \<longrightarrow>
      (\<exists>l<warpSize s. inst_active inst l \<and> \<not> accept l \<and> (\<forall>k<l. \<not> inst_active inst k) \<and>
         tr = [LaneSendTimingReq l (lanePacket inst l) False, LaneDelete l])) \<and>
   (executeMemOp accept inst s = Inr (False, tr) \<longrightarrow>
      tr = map (\<lambda>l. LaneSendTimingReq l (lanePacket inst l) True)
             (filter (inst_active inst) [0..<warpSize s]) \<and>
      (\<forall>l<warpSize s. inst_active inst l \<longrightarrow> accept l))"
proof (intro conjI impI)
  assume h: "passesChecks inst \<and> l < warpSize s \<and> inst_active inst l \<and> \<not> accept l \<and>
      (\<forall>k<l. \<not> inst_active inst k)"
  then have "laneLoop accept inst (warpSize s) 0 False [] =
      Inr (True, [] @ [LaneSendTimingReq l (lanePacket inst l) False, LaneDelete l])"
    by (intro laneLoop_first_rejects) (auto simp: passesChecks_def)
  with h show "executeMemOp accept inst s =
        Inr (True, [LaneSendTimingReq l (lanePacket inst l) False, LaneDelete l])"
    by (simp add: executeMemOp_def passesChecks_def)
next
  assume h: "passesChecks inst \<and> l < warpSize s \<and> inst_active inst l \<and> \<not> accept l \<and>
      (\<forall>j<l. inst_active inst j \<longrightarrow> accept j) \<and> k < l \<and> inst_active inst k"
  then have "\<exists>k. 0 \<le> k \<and> k < l \<and> inst_active inst k" by blast
  with h have "laneLoop accept inst (warpSize s) 0 False [] =
      Inl (Panic ''Should never fail after first accepted lane'')"
    by (intro laneLoop_rejects_after_completed) (auto simp: passesChecks_def)
  with h show "executeMemOp accept inst s =
        Inl (Panic ''Should never fail after first accepted lane'')"
    by (simp add: executeMemOp_def passesChecks_def)
next
  assume "executeMemOp accept inst s = Inr (True, tr)"
  then have "laneLoop accept inst (warpSize s) 0 False [] = Inr (True, tr)"
    by (simp add: executeMemOp_def split: if_splits)
  from laneLoop_stall [OF this]
  show "\<exists>l<warpSize s. inst_active inst l \<and> \<not> accept l \<and> (\<forall>k<l. \<not> inst_active inst k) \<and>
         tr = [LaneSendTimingReq l (lanePacket inst l) False, LaneDelete l]"
    by auto
next
  assume "executeMemOp accept inst s = Inr (False, tr)"
  then have ll: "laneLoop accept inst (warpSize s) 0 False [] = Inr (False, tr)"
    by (simp add: executeMemOp_def split: if_splits)
  from laneLoop_done [OF ll]
  show "tr = map (\<lambda>l. LaneSendTimingReq l (lanePacket inst l) True)
             (filter (inst_active inst) [0..<warpSize s])"
    by simp
  from laneLoop_done [OF ll]
  show "\<forall>l<warpSize s. inst_active inst l \<longrightarrow> accept l"
    by simp
qed

theorem executeMemOp_fail_early_witness:
  "executeMemOp (\<lambda>l. l \<noteq> 0) scenarioInst (initCore 4 6) =
     Inr (True, [LaneSendTimingReq 0 (lanePacket scenarioInst 0) False, LaneDelete 0]) \<and>
   executeMemOp (\<lambda>l. l \<noteq> 3) scenarioInst (initCore 4 6) =
     Inl (Panic ''Should never fail after first accepted lane'') \<and>
   executeMemOp (\<lambda>l. True) scenarioInst (initCore 4 6) =
     Inr (False, [LaneSendTimingReq 0 (lanePacket scenarioInst 0) True,
                  LaneSendTimingReq 1 (lanePacket scenarioInst 1) True,
                  LaneSendTimingReq 3 (lanePacket scenarioInst 3) True]) \<and>
   (\<exists>l<warpSize (initCore 4 6). inst_active scenarioInst l \<and> \<not> l \<noteq> 0 \<and>
      (\<forall>k<l. \<not> inst_active scenarioInst k) \<and>
      [LaneSendTimingReq 0 (lanePacket scenarioInst 0) False, LaneDelete 0] =
        [LaneSendTimingReq l (lanePacket scenarioInst l) False, LaneDelete l]) \<and>
   map (\<lambda>l. LaneSendTimingReq l (lanePacket scenarioInst l) True)
     (filter (inst_active scenarioInst) [0..<warpSize (initCore 4 6)]) =
     [LaneSendTimingReq 0 (lanePacket scenarioInst 0) True,
      LaneSendTimingReq 1 (lanePacket scenarioInst 1) True,
      LaneSendTimingReq 3 (lanePacket scenarioInst 3) True] \<and>
   passesChecks wideInst \<and>
   executeMemOp (\<lambda>l. l \<noteq> 0) wideInst (initCore 4 6) =
     Inr (True, [LaneSendTimingReq 0 (lanePacket wideInst 0) False, LaneDelete 0]) \<and>
   req_size (pkt_req (lanePacket wideInst 0)) = 4"
proof -
  have wide: "passesChecks wideInst"
    by (simp add: passesChecks_def wideInst_def scenarioInst_def)
  have wide_first: "executeMemOp (\<lambda>l. l \<noteq> 0) wideInst (initCore 4 6) =
     Inr (True, [LaneSendTimingReq 0 (lanePacket wideInst 0) False, LaneDelete 0])"
    by (rule executeMemOp_fail_early [THEN conjunct1, rule_format])
       (simp add: wide, simp add: wideInst_def scenarioInst_def initCore_def)
  have wide_size: "req_size (pkt_req (lanePacket wideInst 0)) = 4"
    by (simp add: lanePacket_def wideInst_def scenarioInst_def)
  have first: "executeMemOp (\<lambda>l. l \<noteq> 0) scenarioInst (initCore 4 6) =
     Inr (True, [LaneSendTimingReq 0 (lanePacket scenarioInst 0) False, LaneDelete 0])"
    by (rule executeMemOp_fail_early [THEN conjunct1, rule_format])
       (simp add: passesChecks_def scenarioInst_def initCore_def)
  have later: "executeMemOp (\<lambda>l. l \<noteq> 3) scenarioInst (initCore 4 6) =
     Inl (Panic ''Should never fail after first accepted lane'')"
    by (rule executeMemOp_fail_early [where k = 0 and l = 3, THEN conjunct2, THEN conjunct1, rule_format])
       (simp add: passesChecks_def scenarioInst_def initCore_def)
  have all: "executeMemOp (\<lambda>l. True) scenarioInst (initCore 4 6) =
     Inr (False, [LaneSendTimingReq 0 (lanePacket scenarioInst 0) True,
                  LaneSendTimingReq 1 (lanePacket scenarioInst 1) True,
                  LaneSendTimingReq 3 (lanePacket scenarioInst 3) True])"
    by (simp add: executeMemOp_def scenarioInst_def initCore_def laneLoop.simps
        lanePacket_def numeral_3_eq_3)
  have sent: "[LaneSendTimingReq 0 (lanePacket scenarioInst 0) True,
                  LaneSendTimingReq 1 (lanePacket scenarioInst 1) True,
                  LaneSendTimingReq 3 (lanePacket scenarioInst 3) True] =
      map (\<lambda>l. LaneSendTimingReq l (lanePacket scenarioInst l) True)
     (filter (inst_active scenarioInst) [0..<warpSize (initCore 4 6)])"
    by (rule executeMemOp_fail_early
          [THEN conjunct2, THEN conjunct2, THEN conjunct2, rule_format, THEN conjunct1])
       (rule all)
  have only_first: "\<exists>l<warpSize (initCore 4 6). inst_active scenarioInst l \<and> \<not> l \<noteq> 0 \<and>
      (\<forall>k<l. \<not> inst_active scenarioInst k) \<and>
      [LaneSendTimingReq 0 (lanePacket scenarioInst 0) False, LaneDelete 0] =
        [LaneSendTimingReq l (lanePacket scenarioInst l) False, LaneDelete l]"
    by (rule executeMemOp_fail_early
          [THEN conjunct2, THEN conjunct2, THEN conjunct1, THEN mp])
       (rule first)
  from first later all only_first sent [symmetric] wide wide_first wide_size
  show ?thesis by (intro conjI)
qed

subsection \<open>Outstanding fetches\<close>

lemma executeMemOp_step_state:
  "step (ExecuteMemOp accept inst) s = Inr (s', ev) \<Longrightarrow> s' = s"
  by (auto split: sum.splits)

lemma step_config:
  "step c s = Inr (s', ev) \<Longrightarrow> blockSizeBits s' = blockSizeBits s \<and> warpSize s' = warpSize s"
  by (cases c)
     (auto simp: icacheFetch_def recvInstResp_def sendInstAccess_def handleRetry_def
        recvLSQDataResp_def writebackClear_def recvLSQControlResp_def finishKernel_def
        flush_def Let_def split: if_splits option.splits list.splits sum.splits)

lemma step_busy_other:
  "step c s = Inr (s', ev) \<Longrightarrow> (\<And>a mf. c \<noteq> IcacheFetch a mf) \<Longrightarrow> (\<And>p. c \<noteq> RecvInstResp p) \<Longrightarrow>
     busyInstCacheLineAddrs s' = busyInstCacheLineAddrs s"
  by (cases c)
     (auto simp: sendInstAccess_def handleRetry_def
        recvLSQDataResp_def writebackClear_def recvLSQControlResp_def finishKernel_def
        flush_def Let_def split: if_splits option.splits list.splits sum.splits)

lemma step_outstanding:
  assumes "step c s = Inr (s', ev)"
  shows "(if isFetchTo (blockSizeBits s) L c then 1 else 0) +
           (if busyInstCacheLineAddrs s L = None then 0 else 1) =
         (if isResponseTo (blockSizeBits s) L c then 1 else 0) +
           (if busyInstCacheLineAddrs s' L = None then 0 else (1::nat))"
proof (cases c)
  case (IcacheFetch addr mf)
  with assms show ?thesis
    by (auto simp: icacheFetch_def instCacheResourceAvailable_def Let_def addrToLine_idem
        split: if_splits)
next
  case (RecvInstResp pkt)
  with assms show ?thesis
    by (auto simp: recvInstResp_def split: if_splits option.splits)
qed (use assms step_busy_other [OF assms] in auto)

lemma run_config:
  "run cs s = Inr (s', ev) \<Longrightarrow> blockSizeBits s' = blockSizeBits s"
proof (induction cs arbitrary: s ev)
  case Nil then show ?case by simp
next
  case (Cons c cs)
  then obtain s1 ev1 ev2 where st: "step c s = Inr (s1, ev1)" and r: "run cs s1 = Inr (s', ev2)"
    by (auto split: sum.splits)
  from step_config [OF st] Cons.IH [OF r] show ?case by simp
qed

lemma run_outstanding:
  "run cs s = Inr (s', ev) \<Longrightarrow>
     fetchesTo (blockSizeBits s) L cs + (if busyInstCacheLineAddrs s L = None then 0 else 1) =
     responsesTo (blockSizeBits s) L cs + (if busyInstCacheLineAddrs s' L = None then 0 else 1)"
proof (induction cs arbitrary: s ev)
  case Nil then show ?case by (simp add: fetchesTo_def responsesTo_def)
next
  case (Cons c cs)
  then obtain s1 ev1 ev2 where st: "step c s = Inr (s1, ev1)" and r: "run cs s1 = Inr (s', ev2)"
    by (auto split: sum.splits)
  have b: "blockSizeBits s1 = blockSizeBits s" using step_config [OF st] by simp
  from Cons.IH [OF r, unfolded b] step_outstanding [OF st, of L]
  show ?case by (simp add: fetchesTo_def responsesTo_def split: if_splits)
qed

lemma run_prefix:
  "run (xs @ ys) s = Inr r \<Longrightarrow> \<exists>s1 ev1. run xs s = Inr (s1, ev1)"
proof (induction xs arbitrary: s r)
  case Nil then show ?case by simp
next
  case (Cons c cs)
  then obtain s1 ev1 r2 where st: "step c s = Inr (s1, ev1)" and r: "run (cs @ ys) s1 = Inr r2"
    by (auto split: sum.splits)
  from Cons.IH [OF r] st show ?case by (auto split: sum.splits)
qed

text \<open>
  C2: \<open>icacheFetch\<close> fails its assertion when a fetch is outstanding for the line of
  \<open>addr\<close>, and otherwise files the handle under that line; \<open>recvInstResp\<close> fails
  its assertion when nothing is outstanding for the line of the response, and otherwise
  hands the stored handle to the functional model and erases that entry and no other. So
  at every point of a sequence of calls that starts from the constructor's state and does
  not end the simulation, the fetches issued for a line exceed the responses received for
  it by zero or one.
\<close>

theorem one_outstanding_fetch_per_line:
  "(busyInstCacheLineAddrs s (addrToLine (blockSizeBits s) addr) \<noteq> None \<longrightarrow>
      icacheFetch addr mf s = Inl (AssertionFailed ''instCacheResourceAvailable(addr)'')) \<and>
   (icacheFetch addr mf s = Inr (s1, ev1) \<longrightarrow>
      busyInstCacheLineAddrs s (addrToLine (blockSizeBits s) addr) = None \<and>
      busyInstCacheLineAddrs s1 =
        (busyInstCacheLineAddrs s)(addrToLine (blockSizeBits s) addr \<mapsto> mf)) \<and>
   (req_instFetch (pkt_req pkt) \<and>
    busyInstCacheLineAddrs s (addrToLine (blockSizeBits s) (req_vaddr (pkt_req pkt))) = None \<longrightarrow>
      recvInstResp pkt s = Inl (AssertionFailed ''iter != busyInstCacheLineAddrs.end()'')) \<and>
   (recvInstResp pkt s = Inr (s2, ev2) \<longrightarrow>
      (\<exists>h. busyInstCacheLineAddrs s (addrToLine (blockSizeBits s) (req_vaddr (pkt_req pkt)))
              = Some h \<and>
           ev2 = [AcceptFetchResponse h, DeleteResponse]) \<and>
      busyInstCacheLineAddrs s2 =
        (busyInstCacheLineAddrs s)
          (addrToLine (blockSizeBits s) (req_vaddr (pkt_req pkt)) := None)) \<and>
   (run (xs @ ys) (initCore w b) = Inr r \<longrightarrow>
      responsesTo b L xs \<le> fetchesTo b L xs \<and> fetchesTo b L xs \<le> responsesTo b L xs + 1)"
proof (intro conjI impI)
  assume "busyInstCacheLineAddrs s (addrToLine (blockSizeBits s) addr) \<noteq> None"
  then show "icacheFetch addr mf s = Inl (AssertionFailed ''instCacheResourceAvailable(addr)'')"
    by (simp add: icacheFetch_def instCacheResourceAvailable_def)
next
  assume h: "icacheFetch addr mf s = Inr (s1, ev1)"
  then show "busyInstCacheLineAddrs s (addrToLine (blockSizeBits s) addr) = None"
    by (simp add: icacheFetch_def instCacheResourceAvailable_def split: if_splits)
  from h show "busyInstCacheLineAddrs s1 =
        (busyInstCacheLineAddrs s)(addrToLine (blockSizeBits s) addr \<mapsto> mf)"
    by (auto simp: icacheFetch_def Let_def addrToLine_idem split: if_splits)
next
  assume "req_instFetch (pkt_req pkt) \<and>
    busyInstCacheLineAddrs s (addrToLine (blockSizeBits s) (req_vaddr (pkt_req pkt))) = None"
  then show "recvInstResp pkt s = Inl (AssertionFailed ''iter != busyInstCacheLineAddrs.end()'')"
    by (simp add: recvInstResp_def)
next
  assume h: "recvInstResp pkt s = Inr (s2, ev2)"
  then show "\<exists>h. busyInstCacheLineAddrs s (addrToLine (blockSizeBits s) (req_vaddr (pkt_req pkt)))
              = Some h \<and>
           ev2 = [AcceptFetchResponse h, DeleteResponse]"
    by (auto simp: recvInstResp_def split: if_splits option.splits)
  from h show "busyInstCacheLineAddrs s2 =
        (busyInstCacheLineAddrs s)
          (addrToLine (blockSizeBits s) (req_vaddr (pkt_req pkt)) := None)"
    by (auto simp: recvInstResp_def split: if_splits option.splits)
next
  assume "run (xs @ ys) (initCore w b) = Inr r"
  from run_prefix [OF this] obtain s1 ev1 where "run xs (initCore w b) = Inr (s1, ev1)"
    by blast
  from run_outstanding [OF this, of L]
  have eq: "fetchesTo b L xs =
      responsesTo b L xs + (if busyInstCacheLineAddrs s1 L = None then 0 else 1)"
    by (simp add: initCore_def)
  from eq show "responsesTo b L xs \<le> fetchesTo b L xs" by simp
  from eq show "fetchesTo b L xs \<le> responsesTo b L xs + 1" by simp
qed

theorem one_outstanding_fetch_per_line_witness:
  "icacheFetch 0x103F someFetch
     ((initCore 4 6)\<lparr> busyInstCacheLineAddrs := [0x1000 \<mapsto> someFetch] \<rparr>) =
     Inl (AssertionFailed ''instCacheResourceAvailable(addr)'') \<and>
   icacheFetch 0x1005 someFetch (initCore 4 6) =
     Inr ((initCore 4 6)\<lparr> busyInstCacheLineAddrs := [0x1000 \<mapsto> someFetch] \<rparr>,
          [BeginTranslateTiming
             \<lparr> req_vaddr = 0x1000, req_size = 16, req_pc = 0x400, req_instFetch = True \<rparr>]) \<and>
   busyInstCacheLineAddrs
     ((initCore 4 6)\<lparr> busyInstCacheLineAddrs := [0x1000 \<mapsto> someFetch] \<rparr>) =
     (busyInstCacheLineAddrs (initCore 4 6))
       (addrToLine (blockSizeBits (initCore 4 6)) 0x1005 \<mapsto> someFetch) \<and>
   recvInstResp (instResponse 0x1000) (initCore 4 6) =
     Inl (AssertionFailed ''iter != busyInstCacheLineAddrs.end()'') \<and>
   recvInstResp (instResponse 0x1000)
     ((initCore 4 6)\<lparr> busyInstCacheLineAddrs := [0x1000 \<mapsto> someFetch] \<rparr>) =
     Inr (initCore 4 6, [AcceptFetchResponse someFetch, DeleteResponse]) \<and>
   busyInstCacheLineAddrs (initCore 4 6) =
     [0x1000 \<mapsto> someFetch]
       (addrToLine 6 (req_vaddr (pkt_req (instResponse 0x1000))) := None) \<and>
   run ([IcacheFetch 0x1005 someFetch] @ [RecvInstResp (instResponse 0x1000)]) (initCore 4 6) =
     Inr (initCore 4 6,
          [BeginTranslateTiming
             \<lparr> req_vaddr = 0x1000, req_size = 16, req_pc = 0x400, req_instFetch = True \<rparr>,
           AcceptFetchResponse someFetch, DeleteResponse]) \<and>
   responsesTo 6 0x1000 [IcacheFetch 0x1005 someFetch] \<le>
     fetchesTo 6 0x1000 [IcacheFetch 0x1005 someFetch] \<and>
   fetchesTo 6 0x1000 [IcacheFetch 0x1005 someFetch] \<le>
     responsesTo 6 0x1000 [IcacheFetch 0x1005 someFetch] + 1"
proof -
  let ?busy = "(initCore 4 6)\<lparr> busyInstCacheLineAddrs := [0x1000 \<mapsto> someFetch] \<rparr>"
  let ?req = "\<lparr> req_vaddr = 0x1000, req_size = 16, req_pc = 0x400, req_instFetch = True \<rparr>"
  have line: "addrToLine 6 0x1005 = 0x1000" "addrToLine 6 0x103F = 0x1000"
    "addrToLine 6 0x1000 = 0x1000"
    by (simp_all add: addrToLine_def mask_eq_exp_minus_1)
  have second: "icacheFetch 0x103F someFetch ?busy =
      Inl (AssertionFailed ''instCacheResourceAvailable(addr)'')"
    by (rule one_outstanding_fetch_per_line [THEN conjunct1, rule_format])
       (simp add: initCore_def line)
  have fetch: "icacheFetch 0x1005 someFetch (initCore 4 6) = Inr (?busy, [BeginTranslateTiming ?req])"
    by (simp add: icacheFetch_def instCacheResourceAvailable_def initCore_def line Let_def
        someFetch_def)
  have filed: "busyInstCacheLineAddrs ?busy =
      (busyInstCacheLineAddrs (initCore 4 6))
        (addrToLine (blockSizeBits (initCore 4 6)) 0x1005 \<mapsto> someFetch)"
    by (rule one_outstanding_fetch_per_line
          [THEN conjunct2, THEN conjunct1, rule_format, THEN conjunct2])
       (rule fetch)
  have stray: "recvInstResp (instResponse 0x1000) (initCore 4 6) =
      Inl (AssertionFailed ''iter != busyInstCacheLineAddrs.end()'')"
    by (rule one_outstanding_fetch_per_line
          [THEN conjunct2, THEN conjunct2, THEN conjunct1, rule_format])
       (simp add: initCore_def instResponse_def)
  have resp: "recvInstResp (instResponse 0x1000) ?busy =
      Inr (initCore 4 6, [AcceptFetchResponse someFetch, DeleteResponse])"
    by (simp add: recvInstResp_def instResponse_def initCore_def line)
  have erased: "busyInstCacheLineAddrs (initCore 4 6) =
      (busyInstCacheLineAddrs ?busy)
        (addrToLine (blockSizeBits ?busy) (req_vaddr (pkt_req (instResponse 0x1000))) := None)"
    by (rule one_outstanding_fetch_per_line
          [THEN conjunct2, THEN conjunct2, THEN conjunct2, THEN conjunct1, rule_format,
           THEN conjunct2])
       (rule resp)
  then have erased': "busyInstCacheLineAddrs (initCore 4 6) =
     [0x1000 \<mapsto> someFetch]
       (addrToLine 6 (req_vaddr (pkt_req (instResponse 0x1000))) := None)"
    by (simp add: initCore_def)
  have both: "run ([IcacheFetch 0x1005 someFetch] @ [RecvInstResp (instResponse 0x1000)])
      (initCore 4 6) =
      Inr (initCore 4 6, [BeginTranslateTiming ?req, AcceptFetchResponse someFetch, DeleteResponse])"
    by (simp add: fetch resp)
  note counts = one_outstanding_fetch_per_line
          [THEN conjunct2, THEN conjunct2, THEN conjunct2, THEN conjunct2, rule_format, OF both]
  from second fetch filed stray resp erased' both counts [THEN conjunct1] counts [THEN conjunct2]
  show ?thesis by (intro conjI)
qed

subsection \<open>Fetch dispatch and retry\<close>

text \<open>
  No call ever returns with the core stalled or with a packet on the retry list, when the
  run starts from the constructor's state: the only place that sets the flag or appends to
  the list is the rejection path of \<open>sendInstAccess\<close>, which reads the head of the list
  first, and the list is empty whenever the assertion at the top of that function holds.
\<close>

lemma step_never_stalls:
  "step c s = Inr (s', ev) \<Longrightarrow> \<not> stallOnICacheRetry s \<Longrightarrow> retryInstPkts s = [] \<Longrightarrow>
     \<not> stallOnICacheRetry s' \<and> retryInstPkts s' = []"
  by (cases c)
     (auto simp: icacheFetch_def recvInstResp_def sendInstAccess_def handleRetry_def
        recvLSQDataResp_def writebackClear_def recvLSQControlResp_def finishKernel_def
        flush_def Let_def split: if_splits option.splits list.splits sum.splits)

lemma run_never_stalls:
  "run cs s = Inr (s', ev) \<Longrightarrow> \<not> stallOnICacheRetry s \<Longrightarrow> retryInstPkts s = [] \<Longrightarrow>
     \<not> stallOnICacheRetry s' \<and> retryInstPkts s' = []"
proof (induction cs arbitrary: s ev)
  case Nil
  then show ?case by simp
next
  case (Cons c cs)
  then obtain s1 ev1 ev2 where st: "step c s = Inr (s1, ev1)" and r: "run cs s1 = Inr (s', ev2)"
    by (auto split: sum.splits)
  from step_never_stalls [OF st Cons.prems(2,3)] have "\<not> stallOnICacheRetry s1" "retryInstPkts s1 = []"
    by simp_all
  then show ?case by (rule Cons.IH [OF r])
qed

text \<open>
  C7 does not hold of the code. In every state that a run from the constructor's state
  reaches, a rejected send makes \<open>sendInstAccess\<close> compare the packet with the head of an
  empty list, which C++ leaves undefined: the comparison is not well-defined there, and
  nothing says that the packet is enqueued.
\<close>

theorem sendInstAccess_rejected_reads_empty_list:
  "run cs (initCore w b) = Inr (s, ev) \<longrightarrow>
     sendInstAccess False pkt s =
       Inl (UndefinedBehaviour ''retryInstPkts.front() on an empty list'')"
proof
  assume "run cs (initCore w b) = Inr (s, ev)"
  from run_never_stalls [OF this] have "\<not> stallOnICacheRetry s \<and> retryInstPkts s = []"
    by (simp add: initCore_def)
  then show "sendInstAccess False pkt s =
       Inl (UndefinedBehaviour ''retryInstPkts.front() on an empty list'')"
    by (simp add: sendInstAccess_def)
qed

theorem sendInstAccess_rejected_reads_empty_list_witness:
  "run [] (initCore 4 6) = Inr (initCore 4 6, []) \<and>
   sendInstAccess False 1 (initCore 4 6) =
     Inl (UndefinedBehaviour ''retryInstPkts.front() on an empty list'')"
proof -
  have r: "run [] (initCore 4 6) = Inr (initCore 4 6, [])" by simp
  from r sendInstAccess_rejected_reads_empty_list [THEN mp, OF r] show ?thesis by (intro conjI)
qed













text \<open>
  C8, as the claim states it, fails: the counter is incremented after the conditional, so
  a rejected send that returns has incremented it too. On a newly constructed core, in a
  build where the read of the empty list yields the null pointer, the rejected send of
  packet 9 returns with the counter at 1.
\<close>

theorem sendInstAccess_rejected_counts_counterexample:
  "sendInstAccessReading 0 False 9 (initCore 4 6) =
     Inr ((initCore 4 6)\<lparr> stallOnICacheRetry := True, retryInstPkts := [9],
                           numInstCacheRequests := 1 \<rparr>,
          [InstSendTimingReq 9 False])"
  by (simp add: sendInstAccessReading_def initCore_def)

text \<open>
  C8, amended: every call of \<open>sendInstAccess\<close> that returns has incremented
  \<open>numInstCacheRequests\<close> by one, whether the port accepted the send or not, and
  whichever way the build takes the read of the empty list. An accepted send changes
  nothing else, so the core stays ready; a rejected send on a core that is not stalled and
  holds no packet returns, where the read yields a pointer, with the core stalled and the
  counter incremented.
\<close>

theorem sendInstAccess_counts_every_call:
  "(sendInstAccess accepted pkt s = Inr (s', ev) \<or>
    sendInstAccessReading g accepted pkt s = Inr (s', ev) \<longrightarrow>
      numInstCacheRequests s' = numInstCacheRequests s + 1) \<and>
   (\<not> stallOnICacheRetry s \<longrightarrow>
      sendInstAccess True pkt s =
        Inr (s\<lparr> numInstCacheRequests := numInstCacheRequests s + 1 \<rparr>,
             [InstSendTimingReq pkt True]) \<and>
      sendInstAccessReading g True pkt s =
        Inr (s\<lparr> numInstCacheRequests := numInstCacheRequests s + 1 \<rparr>,
             [InstSendTimingReq pkt True])) \<and>
   (\<not> stallOnICacheRetry s \<and> retryInstPkts s = [] \<longrightarrow>
      sendInstAccessReading g False pkt s =
        Inr (s\<lparr> stallOnICacheRetry := True,
                retryInstPkts := (if pkt \<noteq> g then [pkt] else []),
                numInstCacheRequests := numInstCacheRequests s + 1 \<rparr>,
             [InstSendTimingReq pkt False]))"
  by (auto simp: sendInstAccess_def sendInstAccessReading_def Let_def
      split: if_splits list.splits)

theorem sendInstAccess_counts_every_call_witness:
  "\<not> stallOnICacheRetry (initCore 4 6) \<and> retryInstPkts (initCore 4 6) = [] \<and>
   sendInstAccessReading 0 False 9 (initCore 4 6) =
     Inr ((initCore 4 6)\<lparr> stallOnICacheRetry := True,
                           retryInstPkts := (if (9::nat) \<noteq> 0 then [9] else []),
                           numInstCacheRequests := numInstCacheRequests (initCore 4 6) + 1 \<rparr>,
          [InstSendTimingReq 9 False]) \<and>
   numInstCacheRequests
     ((initCore 4 6)\<lparr> stallOnICacheRetry := True,
                       retryInstPkts := (if (9::nat) \<noteq> 0 then [9] else []),
                       numInstCacheRequests := numInstCacheRequests (initCore 4 6) + 1 \<rparr>) =
     numInstCacheRequests (initCore 4 6) + 1 \<and>
   sendInstAccess True 9 (initCore 4 6) =
     Inr ((initCore 4 6)\<lparr> numInstCacheRequests := numInstCacheRequests (initCore 4 6) + 1 \<rparr>,
          [InstSendTimingReq 9 True]) \<and>
   numInstCacheRequests
     ((initCore 4 6)\<lparr> numInstCacheRequests := numInstCacheRequests (initCore 4 6) + 1 \<rparr>) =
     numInstCacheRequests (initCore 4 6) + 1"
proof -
  note main = sendInstAccess_counts_every_call
  have fresh: "\<not> stallOnICacheRetry (initCore 4 6) \<and> retryInstPkts (initCore 4 6) = []"
    by (simp add: initCore_def)
  note rej = main [where pkt = 9 and g = 0 and s = "initCore 4 6",
                   THEN conjunct2, THEN conjunct2, THEN mp, OF fresh]
  note rej_counted = main [THEN conjunct1, THEN mp, OF disjI2, OF rej]
  note acc = main [where pkt = 9 and s = "initCore 4 6",
                   THEN conjunct2, THEN conjunct1, THEN mp, OF fresh [THEN conjunct1],
                   THEN conjunct1]
  note acc_counted = main [THEN conjunct1, THEN mp, OF disjI1, OF acc]
  from fresh [THEN conjunct1] fresh [THEN conjunct2] rej rej_counted acc acc_counted
  show ?thesis by (intro conjI)
qed

text \<open>
  C9: when \<open>handleRetry\<close> has resent the head of the list and other packets remain, it
  sends the new head without looking at the port's answer: whatever the answer, the list
  keeps the new head in front and the core stays stalled, and the next \<open>handleRetry\<close>
  sends that same packet again.
\<close>

theorem handleRetry_eager_send_keeps_head:
  "stallOnICacheRetry s \<and> retryInstPkts s = h # q \<and> removeAll h q = n # rest \<longrightarrow>
     handleRetry True r2 s =
       Inr (s\<lparr> numInstCacheRetry := numInstCacheRetry s + 1, retryInstPkts := n # rest,
               stallOnICacheRetry := True \<rparr>,
            [InstSendTimingReq h True, InstSendTimingReq n r2]) \<and>
     (\<exists>s'' ev. handleRetry True r2'
                 (s\<lparr> numInstCacheRetry := numInstCacheRetry s + 1, retryInstPkts := n # rest,
                     stallOnICacheRetry := True \<rparr>) =
               Inr (s'', InstSendTimingReq n True # ev))"
  by (auto simp: handleRetry_def split: list.splits)

theorem handleRetry_eager_send_keeps_head_witness:
  "stallOnICacheRetry (stalledWith [1, 2, 3]) \<and>
   retryInstPkts (stalledWith [1, 2, 3]) = 1 # [2, 3] \<and> removeAll 1 [2, 3] = 2 # [3 :: nat] \<and>
   handleRetry True True (stalledWith [1, 2, 3]) =
     Inr ((stalledWith [1, 2, 3])
            \<lparr> numInstCacheRetry := numInstCacheRetry (stalledWith [1, 2, 3]) + 1,
              retryInstPkts := 2 # [3], stallOnICacheRetry := True \<rparr>,
          [InstSendTimingReq 1 True, InstSendTimingReq 2 True]) \<and>
   handleRetry True False (stalledWith [1, 2, 3]) =
     Inr ((stalledWith [1, 2, 3])
            \<lparr> numInstCacheRetry := numInstCacheRetry (stalledWith [1, 2, 3]) + 1,
              retryInstPkts := 2 # [3], stallOnICacheRetry := True \<rparr>,
          [InstSendTimingReq 1 True, InstSendTimingReq 2 False])"
proof -
  have pre: "stallOnICacheRetry (stalledWith [1, 2, 3]) \<and>
      retryInstPkts (stalledWith [1, 2, 3]) = 1 # [2, 3] \<and> removeAll 1 [2, 3] = 2 # [3 :: nat]"
    by (simp add: stalledWith_def)
  from pre
    handleRetry_eager_send_keeps_head [THEN mp, OF pre, THEN conjunct1, of True]
    handleRetry_eager_send_keeps_head [THEN mp, OF pre, THEN conjunct1, of False]
  show ?thesis by (intro conjI) simp_all
qed

text \<open>
  C10: a retry signal on a lane port or on the control port is a panic, whatever the state
  of the core; only the instruction port's goes to \<open>handleRetry\<close>.
\<close>

theorem recvRetry_only_on_instPort:
  "recvRetry (LSQPort idx) r1 r2 s = Inl (Panic ''Not sure how to respond to a recvRetry...'') \<and>
   recvRetry LSQControlPort r1 r2 s =
     Inl (Panic ''CudaCore::LSQControlPort::recvRetry() not implemented!'') \<and>
   recvRetry InstPort r1 r2 s = handleRetry r1 r2 s"
  by simp

theorem recvRetry_only_on_instPort_witness:
  "recvRetry (LSQPort 2) True True (stalledWith [1]) =
     Inl (Panic ''Not sure how to respond to a recvRetry...'') \<and>
   recvRetry LSQControlPort True True (stalledWith [1]) =
     Inl (Panic ''CudaCore::LSQControlPort::recvRetry() not implemented!'') \<and>
   recvRetry InstPort True True (stalledWith [1]) =
     Inr ((initCore 4 6)\<lparr> numInstCacheRetry := 1 \<rparr>, [InstSendTimingReq 1 True])"
proof -
  have "handleRetry True True (stalledWith [1]) =
     Inr ((initCore 4 6)\<lparr> numInstCacheRetry := 1 \<rparr>, [InstSendTimingReq 1 True])"
    by (simp add: handleRetry_def stalledWith_def initCore_def)
  with recvRetry_only_on_instPort [of 2 True True "stalledWith [1]"] show ?thesis by simp
qed

subsection \<open>The write-back gate\<close>

lemma step_keeps_blocked_lane:
  "step c s = Inr (s', ev) \<Longrightarrow> c \<noteq> WritebackClear \<Longrightarrow> 0 \<le> writebackBlocked s \<Longrightarrow>
     writebackBlocked s' = writebackBlocked s"
  by (cases c)
     (auto simp: icacheFetch_def recvInstResp_def sendInstAccess_def handleRetry_def
        recvLSQDataResp_def recvLSQControlResp_def finishKernel_def
        flush_def Let_def split: if_splits option.splits list.splits sum.splits)

lemma run_keeps_blocked_lane:
  "run cs s = Inr (s', ev) \<Longrightarrow> WritebackClear \<notin> set cs \<Longrightarrow> 0 \<le> writebackBlocked s \<Longrightarrow>
     writebackBlocked s' = writebackBlocked s"
proof (induction cs arbitrary: s ev)
  case Nil
  then show ?case by simp
next
  case (Cons c cs)
  then obtain s1 ev1 ev2 where st: "step c s = Inr (s1, ev1)" and r: "run cs s1 = Inr (s', ev2)"
    by (auto split: sum.splits)
  from Cons.prems have nc: "c \<noteq> WritebackClear" "WritebackClear \<notin> set cs" by auto
  from step_keeps_blocked_lane [OF st nc(1) Cons.prems(3)]
  have eq: "writebackBlocked s1 = writebackBlocked s" .
  with Cons.prems(3) have "0 \<le> writebackBlocked s1" by simp
  from Cons.IH [OF r nc(2) this] eq show ?case by simp
qed

text \<open>
  C5: \<open>recvLSQDataResp\<close> records a blocked lane only when none is recorded, and then
  returns "not consumed" without deleting the response; a busy write-back unit while a
  lane is recorded fails the assertion. A recorded lane stays the recorded lane through
  any run of calls without \<open>writebackClear\<close>. \<open>writebackClear\<close> sends a retry to
  the recorded lane's port when there is one and sets the gate to \<open>-1\<close> in any case;
  with the gate at \<open>-1\<close> it changes nothing.
\<close>

theorem single_writeback_blocker:
  "(recvLSQDataResp False pkt inst lane s = Inr (consumed, s1, ev1) \<longrightarrow>
      writebackBlocked s < 0 \<and> \<not> consumed \<and> s1 = s\<lparr> writebackBlocked := int lane \<rparr> \<and>
      DeleteResponse \<notin> set ev1) \<and>
   (isRead (pkt_cmd pkt) \<and> \<not> inst_empty inst \<and> inst_valid inst \<and> 0 \<le> writebackBlocked s \<longrightarrow>
      recvLSQDataResp False pkt inst lane s = Inl (AssertionFailed ''writebackBlocked < 0'')) \<and>
   (0 \<le> writebackBlocked s \<and> run cs s = Inr (s2, ev2) \<and> WritebackClear \<notin> set cs \<longrightarrow>
      writebackBlocked s2 = writebackBlocked s) \<and>
   (0 \<le> writebackBlocked s \<and> nat (writebackBlocked s) < warpSize s \<longrightarrow>
      writebackClear s =
        Inr (s\<lparr> writebackBlocked := - 1 \<rparr>, [LaneSendRetry (nat (writebackBlocked s))])) \<and>
   (writebackBlocked s < 0 \<longrightarrow> writebackClear s = Inr (s\<lparr> writebackBlocked := - 1 \<rparr>, [])) \<and>
   (writebackBlocked s = - 1 \<longrightarrow> writebackClear s = Inr (s, []))"
proof (intro conjI impI)
  assume h: "recvLSQDataResp False pkt inst lane s = Inr (consumed, s1, ev1)"
  then show "writebackBlocked s < 0" "\<not> consumed" "s1 = s\<lparr> writebackBlocked := int lane \<rparr>"
    "DeleteResponse \<notin> set ev1"
    by (auto simp: recvLSQDataResp_def split: if_splits)
next
  assume "isRead (pkt_cmd pkt) \<and> \<not> inst_empty inst \<and> inst_valid inst \<and> 0 \<le> writebackBlocked s"
  then show "recvLSQDataResp False pkt inst lane s = Inl (AssertionFailed ''writebackBlocked < 0'')"
    by (simp add: recvLSQDataResp_def)
next
  assume "0 \<le> writebackBlocked s \<and> run cs s = Inr (s2, ev2) \<and> WritebackClear \<notin> set cs"
  then show "writebackBlocked s2 = writebackBlocked s"
    using run_keeps_blocked_lane [of cs s s2 ev2] by simp
next
  assume "0 \<le> writebackBlocked s \<and> nat (writebackBlocked s) < warpSize s"
  then show "writebackClear s =
        Inr (s\<lparr> writebackBlocked := - 1 \<rparr>, [LaneSendRetry (nat (writebackBlocked s))])"
    by (simp add: writebackClear_def)
next
  assume "writebackBlocked s < 0"
  then show "writebackClear s = Inr (s\<lparr> writebackBlocked := - 1 \<rparr>, [])"
    by (simp add: writebackClear_def)
next
  assume "writebackBlocked s = - 1"
  then show "writebackClear s = Inr (s, [])"
    by (simp add: writebackClear_def)
qed

theorem single_writeback_blocker_witness:
  "recvLSQDataResp False loadResponse scenarioInst 2 (initCore 4 6) =
     Inr (False, (initCore 4 6)\<lparr> writebackBlocked := 2 \<rparr>, [LdstUnitWbInst False]) \<and>
   writebackBlocked (initCore 4 6) < 0 \<and>
   recvLSQDataResp False loadResponse scenarioInst 1 ((initCore 4 6)\<lparr> writebackBlocked := 2 \<rparr>) =
     Inl (AssertionFailed ''writebackBlocked < 0'') \<and>
   run [RecvLSQDataResp True loadResponse scenarioInst 1, FinishKernel True]
     ((initCore 4 6)\<lparr> writebackBlocked := 2 \<rparr>) =
     Inr ((initCore 4 6)\<lparr> writebackBlocked := 2, numKernelsCompleted := 1,
                           signalKernelFinish := True \<rparr>,
          [LdstUnitWbInst True, WriteRegister 1, DeleteResponse,
           ControlSendTimingReq FlushReq True]) \<and>
   writebackBlocked
     ((initCore 4 6)\<lparr> writebackBlocked := 2, numKernelsCompleted := 1,
                       signalKernelFinish := True \<rparr>) =
     writebackBlocked ((initCore 4 6)\<lparr> writebackBlocked := 2 \<rparr>) \<and>
   writebackClear ((initCore 4 6)\<lparr> writebackBlocked := 2 \<rparr>) =
     Inr (initCore 4 6, [LaneSendRetry 2]) \<and>
   writebackClear (initCore 4 6) = Inr ((initCore 4 6)\<lparr> writebackBlocked := - 1 \<rparr>, []) \<and>
   writebackClear (initCore 4 6) = Inr (initCore 4 6, [])"
proof -
  let ?blocked = "(initCore 4 6)\<lparr> writebackBlocked := 2 \<rparr>"
  let ?after = "(initCore 4 6)\<lparr> writebackBlocked := 2, numKernelsCompleted := 1,
                           signalKernelFinish := True \<rparr>"
  have busy: "recvLSQDataResp False loadResponse scenarioInst 2 (initCore 4 6) =
      Inr (False, ?blocked, [LdstUnitWbInst False])"
    by (simp add: recvLSQDataResp_def loadResponse_def scenarioInst_def initCore_def isRead_def)
  have free: "writebackBlocked (initCore 4 6) < 0"
    by (rule single_writeback_blocker [THEN conjunct1, THEN mp, OF busy, THEN conjunct1])
  have second: "recvLSQDataResp False loadResponse scenarioInst 1 ?blocked =
      Inl (AssertionFailed ''writebackBlocked < 0'')"
    by (rule single_writeback_blocker [THEN conjunct2, THEN conjunct1, rule_format])
       (simp add: loadResponse_def scenarioInst_def initCore_def isRead_def)
  have r: "run [RecvLSQDataResp True loadResponse scenarioInst 1, FinishKernel True] ?blocked =
      Inr (?after, [LdstUnitWbInst True, WriteRegister 1, DeleteResponse,
                    ControlSendTimingReq FlushReq True])"
    by (simp add: recvLSQDataResp_def loadResponse_def scenarioInst_def initCore_def isRead_def
        finishKernel_def flush_def)
  have hyp: "0 \<le> writebackBlocked ?blocked \<and>
      run [RecvLSQDataResp True loadResponse scenarioInst 1, FinishKernel True] ?blocked =
        Inr (?after, [LdstUnitWbInst True, WriteRegister 1, DeleteResponse,
                      ControlSendTimingReq FlushReq True]) \<and>
      WritebackClear \<notin> set [RecvLSQDataResp True loadResponse scenarioInst 1, FinishKernel True]"
    by (intro conjI) (simp add: initCore_def, rule r, simp)
  have kept: "writebackBlocked ?after = writebackBlocked ?blocked"
    by (rule single_writeback_blocker
          [THEN conjunct2, THEN conjunct2, THEN conjunct1, THEN mp, OF hyp])
  have clear: "writebackClear ?blocked = Inr (initCore 4 6, [LaneSendRetry 2])"
    using single_writeback_blocker
          [THEN conjunct2, THEN conjunct2, THEN conjunct2, THEN conjunct1, of ?blocked]
    by (simp add: initCore_def)
  have noop: "writebackClear (initCore 4 6) = Inr (initCore 4 6, [])"
    by (rule single_writeback_blocker
          [THEN conjunct2, THEN conjunct2, THEN conjunct2, THEN conjunct2, THEN conjunct2,
           rule_format])
       (simp add: initCore_def)
  have reset: "writebackClear (initCore 4 6) =
      Inr ((initCore 4 6)\<lparr> writebackBlocked := - 1 \<rparr>, [])"
    by (rule single_writeback_blocker
          [THEN conjunct2, THEN conjunct2, THEN conjunct2, THEN conjunct2, THEN conjunct1,
           rule_format])
       (rule free)
  from busy free second r kept clear reset noop show ?thesis by (intro conjI)
qed

subsection \<open>Flush and kernel completion\<close>

lemma executeMemOp_no_finish_signal:
  assumes "executeMemOp accept inst s = Inr (stall, ev)"
  shows "ShaderFinishKernel \<notin> set ev"
proof -
  from assms have ll: "laneLoop accept inst (warpSize s) 0 False [] = Inr (stall, ev)"
    by (simp add: executeMemOp_def split: if_splits)
  show ?thesis
  proof (cases stall)
    case True
    with laneLoop_stall [of accept inst "warpSize s" 0 False "[]" ev] ll show ?thesis by auto
  next
    case False
    with laneLoop_done [of accept inst "warpSize s" 0 False "[]" ev] ll show ?thesis by auto
  qed
qed

lemma step_finish_signal:
  assumes "step c s = Inr (s', ev)" and "ShaderFinishKernel \<in> set ev"
  shows "(\<exists>pkt. c = RecvLSQControlResp pkt \<and> isFlush (pkt_cmd pkt)) \<and>
         signalKernelFinish s \<and> \<not> signalKernelFinish s'"
proof (cases c)
  case (ExecuteMemOp accept inst)
  with assms show ?thesis
    by (auto split: sum.splits dest: executeMemOp_no_finish_signal)
qed (use assms in \<open>auto simp: icacheFetch_def recvInstResp_def sendInstAccess_def
        handleRetry_def recvLSQDataResp_def writebackClear_def recvLSQControlResp_def
        finishKernel_def flush_def Let_def
        split: if_splits option.splits list.splits sum.splits\<close>)

lemma step_signal_count:
  assumes "step c s = Inr (s', ev)"
  shows "count_list ev ShaderFinishKernel \<le> (if isFlushResponse c then 1 else 0)"
proof (cases c)
  case (ExecuteMemOp accept inst)
  with assms show ?thesis
    by (auto split: sum.splits dest: executeMemOp_no_finish_signal)
qed (use assms in \<open>auto simp: icacheFetch_def recvInstResp_def sendInstAccess_def
        handleRetry_def recvLSQDataResp_def writebackClear_def recvLSQControlResp_def
        finishKernel_def flush_def Let_def
        split: if_splits option.splits list.splits sum.splits\<close>)

lemma run_signal_count:
  "run cs s = Inr (s', ev) \<Longrightarrow>
     count_list ev ShaderFinishKernel \<le> length (filter isFlushResponse cs)"
proof (induction cs arbitrary: s ev)
  case Nil
  then show ?case by auto
next
  case (Cons c cs)
  then obtain s1 ev1 ev2 where st: "step c s = Inr (s1, ev1)" and r: "run cs s1 = Inr (s', ev2)"
    and ev: "ev = ev1 @ ev2"
    by (auto split: sum.splits)
  from step_signal_count [OF st] Cons.IH [OF r] ev show ?case by (simp split: if_splits)
qed

text \<open>
  C6, as the claim states it, fails: \<open>finishKernel\<close> calls \<open>flush\<close> on every call,
  so two calls before any response send two flush requests.
\<close>

theorem finishKernel_twice_counterexample:
  "run [FinishKernel True, FinishKernel True] (initCore 4 6) =
     Inr ((initCore 4 6)\<lparr> numKernelsCompleted := 2, signalKernelFinish := True \<rparr>,
          [ControlSendTimingReq FlushReq True, ControlSendTimingReq FlushReq True])"
  by (simp add: finishKernel_def flush_def initCore_def)

text \<open>
  C6, amended: every \<open>finishKernel\<close> increments \<open>numKernelsCompleted\<close>, sets
  \<open>signalKernelFinish\<close> and sends one flush request. The functional model's
  \<open>finish_kernel\<close> is called only by the handling of a flush response that finds the
  flag set, and that handling clears the flag; so a run never signals more often than it
  has received flush responses. Two \<open>finishKernel\<close> calls followed by their two flush
  responses send two flush requests, count two kernels and signal once, on the first
  response.
\<close>

theorem finishKernel_flush_then_signal:
  "finishKernel True s =
     Inr (s\<lparr> numKernelsCompleted := numKernelsCompleted s + 1, signalKernelFinish := True \<rparr>,
          [ControlSendTimingReq FlushReq True]) \<and>
   (step c s = Inr (s1, ev1) \<and> ShaderFinishKernel \<in> set ev1 \<longrightarrow>
      (\<exists>pkt. c = RecvLSQControlResp pkt \<and> isFlush (pkt_cmd pkt)) \<and>
      signalKernelFinish s \<and> \<not> signalKernelFinish s1) \<and>
   (isFlush (pkt_cmd f1) \<and> signalKernelFinish s \<longrightarrow>
      recvLSQControlResp f1 s =
        Inr (s\<lparr> signalKernelFinish := False \<rparr>, [ShaderFinishKernel, DeleteResponse])) \<and>
   (run cs s = Inr (s2, ev2) \<longrightarrow>
      count_list ev2 ShaderFinishKernel \<le> length (filter isFlushResponse cs)) \<and>
   (isFlush (pkt_cmd f1) \<and> isFlush (pkt_cmd f2) \<longrightarrow>
      run [FinishKernel True, FinishKernel True, RecvLSQControlResp f1, RecvLSQControlResp f2] s =
        Inr (s\<lparr> numKernelsCompleted := numKernelsCompleted s + 2, signalKernelFinish := False \<rparr>,
             [ControlSendTimingReq FlushReq True, ControlSendTimingReq FlushReq True,
              ShaderFinishKernel, DeleteResponse, DeleteResponse]))"
proof (intro conjI impI)
  show "finishKernel True s =
     Inr (s\<lparr> numKernelsCompleted := numKernelsCompleted s + 1, signalKernelFinish := True \<rparr>,
          [ControlSendTimingReq FlushReq True])"
    by (simp add: finishKernel_def flush_def)
next
  assume h: "step c s = Inr (s1, ev1) \<and> ShaderFinishKernel \<in> set ev1"
  then have st: "step c s = Inr (s1, ev1)" and m: "ShaderFinishKernel \<in> set ev1" by simp_all
  from step_finish_signal [OF st m]
  show "\<exists>pkt. c = RecvLSQControlResp pkt \<and> isFlush (pkt_cmd pkt)" "signalKernelFinish s"
    "\<not> signalKernelFinish s1"
    by blast+
next
  assume "isFlush (pkt_cmd f1) \<and> signalKernelFinish s"
  then show "recvLSQControlResp f1 s =
        Inr (s\<lparr> signalKernelFinish := False \<rparr>, [ShaderFinishKernel, DeleteResponse])"
    by (simp add: recvLSQControlResp_def)
next
  assume "run cs s = Inr (s2, ev2)"
  then show "count_list ev2 ShaderFinishKernel \<le> length (filter isFlushResponse cs)"
    by (rule run_signal_count)
next
  assume "isFlush (pkt_cmd f1) \<and> isFlush (pkt_cmd f2)"
  then show "run [FinishKernel True, FinishKernel True, RecvLSQControlResp f1,
                  RecvLSQControlResp f2] s =
        Inr (s\<lparr> numKernelsCompleted := numKernelsCompleted s + 2, signalKernelFinish := False \<rparr>,
             [ControlSendTimingReq FlushReq True, ControlSendTimingReq FlushReq True,
              ShaderFinishKernel, DeleteResponse, DeleteResponse])"
    by (simp add: finishKernel_def flush_def recvLSQControlResp_def)
qed

theorem finishKernel_flush_then_signal_witness:
  "finishKernel True (initCore 4 6) =
     Inr ((initCore 4 6)\<lparr> numKernelsCompleted := numKernelsCompleted (initCore 4 6) + 1,
                           signalKernelFinish := True \<rparr>,
          [ControlSendTimingReq FlushReq True]) \<and>
   step (RecvLSQControlResp flushResponse) ((initCore 4 6)\<lparr> signalKernelFinish := True \<rparr>) =
     Inr (initCore 4 6, [ShaderFinishKernel, DeleteResponse]) \<and>
   signalKernelFinish ((initCore 4 6)\<lparr> signalKernelFinish := True \<rparr>) \<and>
   \<not> signalKernelFinish (initCore 4 6) \<and>
   isFlush (pkt_cmd flushResponse) \<and>
   recvLSQControlResp flushResponse ((initCore 4 6)\<lparr> signalKernelFinish := True \<rparr>) =
     Inr ((initCore 4 6)\<lparr> signalKernelFinish := True \<rparr>\<lparr> signalKernelFinish := False \<rparr>,
          [ShaderFinishKernel, DeleteResponse]) \<and>
   run [FinishKernel True, RecvLSQControlResp flushResponse] (initCore 4 6) =
     Inr ((initCore 4 6)\<lparr> numKernelsCompleted := 1 \<rparr>,
          [ControlSendTimingReq FlushReq True, ShaderFinishKernel, DeleteResponse]) \<and>
   count_list [ControlSendTimingReq FlushReq True, ShaderFinishKernel, DeleteResponse]
     ShaderFinishKernel \<le>
     length (filter isFlushResponse [FinishKernel True, RecvLSQControlResp flushResponse]) \<and>
   run [FinishKernel True, FinishKernel True, RecvLSQControlResp flushResponse,
        RecvLSQControlResp flushResponse] (initCore 4 6) =
     Inr ((initCore 4 6)\<lparr> numKernelsCompleted := numKernelsCompleted (initCore 4 6) + 2,
                           signalKernelFinish := False \<rparr>,
          [ControlSendTimingReq FlushReq True, ControlSendTimingReq FlushReq True,
           ShaderFinishKernel, DeleteResponse, DeleteResponse])"
proof -
  let ?flagged = "(initCore 4 6)\<lparr> signalKernelFinish := True \<rparr>"
  note fk = finishKernel_flush_then_signal
  have fl: "isFlush (pkt_cmd flushResponse)" by (simp add: isFlush_def flushResponse_def)
  have st: "step (RecvLSQControlResp flushResponse) ?flagged =
      Inr (initCore 4 6, [ShaderFinishKernel, DeleteResponse])"
    by (simp add: recvLSQControlResp_def fl initCore_def)
  have hyp2: "step (RecvLSQControlResp flushResponse) ?flagged =
      Inr (initCore 4 6, [ShaderFinishKernel, DeleteResponse]) \<and>
      ShaderFinishKernel \<in> set [ShaderFinishKernel, DeleteResponse]"
    using st by simp
  note c2 = fk [THEN conjunct2, THEN conjunct1, THEN mp, OF hyp2]
  have hyp3: "isFlush (pkt_cmd flushResponse) \<and> signalKernelFinish ?flagged"
    using fl by simp
  note c3 = fk [THEN conjunct2, THEN conjunct2, THEN conjunct1, THEN mp, OF hyp3]
  have r: "run [FinishKernel True, RecvLSQControlResp flushResponse] (initCore 4 6) =
     Inr ((initCore 4 6)\<lparr> numKernelsCompleted := 1 \<rparr>,
          [ControlSendTimingReq FlushReq True, ShaderFinishKernel, DeleteResponse])"
    by (simp add: finishKernel_def flush_def recvLSQControlResp_def fl initCore_def)
  note c4 = fk [THEN conjunct2, THEN conjunct2, THEN conjunct2, THEN conjunct1, THEN mp, OF r]
  have hyp5: "isFlush (pkt_cmd flushResponse) \<and> isFlush (pkt_cmd flushResponse)"
    using fl by simp
  note c5 = fk [THEN conjunct2, THEN conjunct2, THEN conjunct2, THEN conjunct2, THEN mp, OF hyp5]
  from fk [THEN conjunct1, of "initCore 4 6"] st c2 [THEN conjunct2] fl c3 r c4
    c5 [of "initCore 4 6"]
  show ?thesis by (intro conjI) simp_all
qed

end
